theory Spec2Isabelle
  imports Main
begin

section \<open>JavaScript values used by the routes\<close>

text \<open>
  The routes test their inputs with JavaScript truthiness (\<open>!email\<close>,
  \<open>!user?.passwordHash\<close>, \<open>if (token?.userId)\<close>). A field that is a string or is
  absent (\<open>undefined\<close> or \<open>null\<close>) is a \<open>string option\<close>; it is truthy when it is a
  non-empty string.
\<close>

definition truthy :: "string option \<Rightarrow> bool" where
  "truthy v = (case v of None \<Rightarrow> False | Some s \<Rightarrow> s \<noteq> [])"

text \<open>
  A user id is whatever the storage layer assigns: a number (an autoincrement column) or a
  string (a cuid or uuid column). The number 0 and the empty string are falsy.
\<close>

datatype uid = NumId nat | StrId string

fun truthy_id :: "uid \<Rightarrow> bool" where
  "truthy_id (NumId n) = (n \<noteq> 0)"
| "truthy_id (StrId s) = (s \<noteq> [])"

section \<open>The user table\<close>

text \<open>
  A row of \<open>prisma.user\<close>, with the columns the routes read and write. The table is the
  list of its rows, oldest first.
\<close>

record user =
  user_id :: uid
  user_email :: string
  user_username :: string
  user_passwordHash :: "string option"
  user_displayName :: "string option"

text \<open>
  Modelled from the spec: Prisma's client is not among the sources. The call
  \<open>prisma.user.findUnique({ where: { email } })\<close> is the User Store's
  \<open>findByEmail(email) -> User|absent\<close>.
\<close>

definition findUnique_email :: "user list \<Rightarrow> string \<Rightarrow> user option" where
  "findUnique_email rows e = find (\<lambda>u. user_email u = e) rows"

text \<open>
  Modelled from the spec: the call
  \<open>prisma.user.findFirst({ where: { OR: [{ email }, { username }] } })\<close> is the User
  Store's \<open>findByEmailOrUsername(email, username) -> User|absent\<close>.
\<close>

definition findFirst_email_or_username :: "user list \<Rightarrow> string \<Rightarrow> string \<Rightarrow> user option" where
  "findFirst_email_or_username rows e n =
     find (\<lambda>u. user_email u = e \<or> user_username u = n) rows"

section \<open>The credentials provider: authorize\<close>

record credentials =
  cred_email :: "string option"
  cred_password :: "string option"

record identity =
  ident_id :: uid
  ident_name :: string
  ident_email :: string

text \<open>
  \<open>authorize(credentials)\<close> of the NextAuth route. \<open>bcrypt.compare\<close> is the parameter
  \<open>compare\<close>; \<open>credentials\<close> itself may be undefined (\<open>credentials?.email\<close>). The
  result \<open>None\<close> is the route's \<open>null\<close>.
\<close>

definition authorize ::
  "(string \<Rightarrow> string \<Rightarrow> bool) \<Rightarrow> user list \<Rightarrow> credentials option \<Rightarrow> identity option" where
  "authorize compare rows creds =
     (case creds of
        None \<Rightarrow> None
      | Some c \<Rightarrow>
          (case (cred_email c, cred_password c) of
             (Some e, Some p) \<Rightarrow>
               if e = [] \<or> p = [] then None
               else
                 (case findUnique_email rows e of
                    None \<Rightarrow> None
                  | Some u \<Rightarrow>
                      (case user_passwordHash u of
                         None \<Rightarrow> None
                       | Some h \<Rightarrow>
                           if h = [] then None
                           else if \<not> compare p h then None
                           else Some \<lparr>ident_id = user_id u,
                                      ident_name = (case user_displayName u of
                                                      None \<Rightarrow> user_username u
                                                    | Some d \<Rightarrow> d),
                                      ident_email = user_email u\<rparr>))
           | _ \<Rightarrow> None))"

section \<open>The session callbacks\<close>

text \<open>
  The JWT is a record whose \<open>userId\<close> claim may be absent; every other claim lives in the
  record's extension, so it is carried along untouched.
\<close>

record token =
  userId :: "uid option"

text \<open>\<open>async jwt({ token, user })\<close>\<close>

definition jwt :: "'a token_scheme \<Rightarrow> identity option \<Rightarrow> 'a token_scheme" where
  "jwt tok usr = (case usr of None \<Rightarrow> tok | Some u \<Rightarrow> tok\<lparr>userId := Some (ident_id u)\<rparr>)"

record session_user =
  su_id :: "uid option"
  su_name :: "string option"
  su_email :: "string option"
  su_image :: "string option"

record session_view =
  s_user :: "session_user option"

text \<open>The object \<open>{}\<close> that the session callback puts in \<open>session.user\<close>.\<close>

definition empty_user :: session_user where
  "empty_user = \<lparr>su_id = None, su_name = None, su_email = None, su_image = None\<rparr>"

text \<open>\<open>async session({ session, token })\<close>; \<open>token\<close> may be undefined (\<open>token?.userId\<close>).\<close>

definition session :: "'a session_view_scheme \<Rightarrow> 'b token_scheme option \<Rightarrow> 'a session_view_scheme" where
  "session s tok =
     (let u = (case s_user s of None \<Rightarrow> empty_user | Some u \<Rightarrow> u);
          u' = (case tok of
                  None \<Rightarrow> u
                | Some t \<Rightarrow>
                    (case userId t of
                       None \<Rightarrow> u
                     | Some i \<Rightarrow> if truthy_id i then u\<lparr>su_id := Some i\<rparr> else u))
      in s\<lparr>s_user := Some u'\<rparr>)"

section \<open>The registration endpoint: POST /api/register\<close>

text \<open>
  The request body after \<open>await req.json()\<close> and the destructuring
  \<open>{ email, username, password, displayName }\<close>. \<open>Unreadable\<close> is a body on which
  either of the two throws (not JSON, or the JSON value \<open>null\<close>); any other body yields
  the four fields, each a string or absent.
\<close>

record register_body =
  email :: "string option"
  username :: "string option"
  password :: "string option"
  displayName :: "string option"

datatype request = Unreadable | Json register_body

text \<open>
  The JSON of a response: \<open>{ error }\<close> or \<open>{ user: { id, email, username } }\<close>.
\<close>

datatype json_body = ErrorBody string | UserBody uid string string

record response =
  status :: nat
  body :: json_body

datatype store_error = UniqueConstraintViolation

datatype store_call = FindFirst | Create

text \<open>
  Modelled from the spec: \<open>prisma.user.create\<close> and the schema of the user table are
  not among the sources. The spec's User Store has \<open>create(fields)\<close> fail when the
  email or the username already exists, checked by the storage layer itself at insert
  time; otherwise the row is appended. The id of the new row is assigned by the storage
  layer and is the parameter \<open>new_id\<close>; an absent display name is stored as null.
\<close>

definition user_create ::
  "uid \<Rightarrow> string \<Rightarrow> string \<Rightarrow> string \<Rightarrow> string option \<Rightarrow> user list
     \<Rightarrow> store_error + (user \<times> user list)" where
  "user_create new_id e n h d rows =
     (if \<exists>u \<in> set rows. user_email u = e \<or> user_username u = n
      then Inl UniqueConstraintViolation
      else
        (let u = \<lparr>user_id = new_id, user_email = e, user_username = n,
                   user_passwordHash = Some h, user_displayName = d\<rparr>
         in Inr (u, rows @ [u])))"

text \<open>
  What a run of the handler leaves behind: the response, the user table, and the calls it
  made to the store, in order.
\<close>

record outcome =
  reply :: response
  table :: "user list"
  store_calls :: "store_call list"

text \<open>
  The handler runs in two segments, separated by its \<open>await\<close>s. The first one reads the
  body, validates it and looks for an existing row; it either answers or hands the
  validated fields to the second segment.
\<close>

definition POST_check ::
  "request \<Rightarrow> user list \<Rightarrow> outcome + (string \<times> string \<times> string \<times> string option)" where
  "POST_check req rows =
     (case req of
        Unreadable \<Rightarrow>
          Inl \<lparr>reply = \<lparr>status = 500, body = ErrorBody ''Serverfeil''\<rparr>,
               table = rows, store_calls = []\<rparr>
      | Json b \<Rightarrow>
          (case (email b, username b, password b) of
             (Some e, Some n, Some p) \<Rightarrow>
               if e = [] \<or> n = [] \<or> p = [] then
                 Inl \<lparr>reply = \<lparr>status = 400, body = ErrorBody ''Mangler felter''\<rparr>,
                      table = rows, store_calls = []\<rparr>
               else
                 (case findFirst_email_or_username rows e n of
                    Some x \<Rightarrow>
                      Inl \<lparr>reply = \<lparr>status = 409, body = ErrorBody ''bruker finnes allerede''\<rparr>,
                           table = rows, store_calls = [FindFirst]\<rparr>
                  | None \<Rightarrow> Inr (e, n, p, displayName b))
           | _ \<Rightarrow>
               Inl \<lparr>reply = \<lparr>status = 400, body = ErrorBody ''Mangler felter''\<rparr>,
                    table = rows, store_calls = []\<rparr>))"

text \<open>
  The second segment hashes the password (\<open>bcrypt.hash(password, 12)\<close>, the parameter
  \<open>hash\<close>) and creates the row. An exception of \<open>create\<close> lands in the handler's
  \<open>catch\<close>, which answers 500.
\<close>

definition POST_create ::
  "(string \<Rightarrow> nat \<Rightarrow> string) \<Rightarrow> uid \<Rightarrow> string \<Rightarrow> string \<Rightarrow> string \<Rightarrow> string option
     \<Rightarrow> user list \<Rightarrow> outcome" where
  "POST_create hash new_id e n p d rows =
     (let passwordHash = hash p 12 in
      case user_create new_id e n passwordHash d rows of
        Inl err \<Rightarrow>
          \<lparr>reply = \<lparr>status = 500, body = ErrorBody ''Serverfeil''\<rparr>,
           table = rows, store_calls = [FindFirst, Create]\<rparr>
      | Inr (u, rows') \<Rightarrow>
          \<lparr>reply = \<lparr>status = 201,
                     body = UserBody (user_id u) (user_email u) (user_username u)\<rparr>,
           table = rows', store_calls = [FindFirst, Create]\<rparr>)"

text \<open>A request served with no other request in between: both segments on one table.\<close>

definition POST ::
  "(string \<Rightarrow> nat \<Rightarrow> string) \<Rightarrow> uid \<Rightarrow> request \<Rightarrow> user list \<Rightarrow> outcome" where
  "POST hash new_id req rows =
     (case POST_check req rows of
        Inl out \<Rightarrow> out
      | Inr (e, n, p, d) \<Rightarrow> POST_create hash new_id e n p d rows)"

section \<open>The registration page: onSubmit\<close>

record form =
  f_email :: string
  f_username :: string
  f_displayName :: string
  f_password :: string

text \<open>The initial \<open>useState\<close> value of the form.\<close>

definition initial_form :: form where
  "initial_form = \<lparr>f_email = [], f_username = [], f_displayName = [], f_password = []\<rparr>"

text \<open>\<open>body: JSON.stringify(form)\<close>, as the endpoint reads it back: four strings.\<close>

definition form_request :: "form \<Rightarrow> request" where
  "form_request f =
     Json \<lparr>email = Some (f_email f), username = Some (f_username f),
           password = Some (f_password f), displayName = Some (f_displayName f)\<rparr>"

record page_state =
  error :: string
  loading :: bool

text \<open>
  What the awaited calls give back. A thrown value is known by its \<open>name\<close>
  (\<open>e?.name\<close>, possibly absent). A response of \<open>fetch\<close> is its status and the
  \<open>error\<close> field of its JSON body (\<open>data?.error\<close>, absent when the body cannot be
  read). A result of \<open>signIn\<close> is its \<open>error\<close> field (\<open>r?.error\<close>).
\<close>

datatype fetch_reply = FetchThrows "string option" | FetchResponse nat "string option"

datatype signIn_reply = SignInThrows "string option" | SignInReturns "string option"

text \<open>
  The messages of the page. The source writes them with an en dash (bytes E2 80 93 in
  UTF-8), a non-breaking hyphen (E2 80 91) and the letter o with stroke (C3 B8).
\<close>

definition en_dash :: string where
  "en_dash = [CHR 0xE2, CHR 0x80, CHR 0x93]"

definition msg_timeout :: string where
  "msg_timeout = ''Tidsavbrudd '' @ en_dash @ '' pr'' @ [CHR 0xC3, CHR 0xB8] @ ''v igjen''"

definition msg_network :: string where
  "msg_network = ''Nettverksfeil '' @ en_dash @ '' sjekk tilkoblingen''"

definition msg_server :: string where
  "msg_server = ''Serverfeil '' @ en_dash @ '' pr'' @ [CHR 0xC3, CHR 0xB8] @ ''v igjen''"

definition msg_credentials :: string where
  "msg_credentials = ''Feil e'' @ [CHR 0xE2, CHR 0x80, CHR 0x91] @ ''post/passord''"

text \<open>\<open>setTimeout(() => controller.abort(), 10000)\<close>\<close>

definition timeout_ms :: nat where
  "timeout_ms = 10000"

text \<open>
  \<open>await fetch(..., { signal })\<close>: \<open>latency\<close> is the time in milliseconds after which
  the call would settle by itself (\<open>None\<close>: never) and \<open>r\<close> what it would settle with.
  A call that has not settled when the timer fires is aborted and throws an
  \<open>AbortError\<close>.
\<close>

definition await_fetch :: "nat option \<Rightarrow> fetch_reply \<Rightarrow> fetch_reply" where
  "await_fetch latency r =
     (case latency of
        None \<Rightarrow> FetchThrows (Some ''AbortError'')
      | Some t \<Rightarrow> if t < timeout_ms then r else FetchThrows (Some ''AbortError''))"

text \<open>The \<open>catch\<close> block: the message for a thrown value.\<close>

definition catch_message :: "string option \<Rightarrow> string" where
  "catch_message nm = (if nm = Some ''AbortError'' then msg_timeout else msg_network)"

text \<open>
  What a submission leaves behind: the page state, whether \<open>fetch\<close> and \<open>signIn\<close>
  were called, and the path given to \<open>router.push\<close>, if any.
\<close>

record submission =
  page :: page_state
  fetch_called :: bool
  signIn_called :: bool
  pushed :: "string option"

text \<open>
  \<open>onSubmit\<close>. The \<open>finally\<close> block resets \<open>loading\<close> on every path that entered
  the \<open>try\<close>.
\<close>

definition onSubmit ::
  "page_state \<Rightarrow> nat option \<Rightarrow> fetch_reply \<Rightarrow> signIn_reply \<Rightarrow> submission" where
  "onSubmit st latency fr sr =
     (if loading st then
        \<lparr>page = st, fetch_called = False, signIn_called = False, pushed = None\<rparr>
      else
        (let st1 = st\<lparr>error := []\<rparr>;
             st2 = st1\<lparr>loading := True\<rparr>
         in case await_fetch latency fr of
              FetchThrows nm \<Rightarrow>
                \<lparr>page = st2\<lparr>error := catch_message nm, loading := False\<rparr>,
                 fetch_called = True, signIn_called = False, pushed = None\<rparr>
            | FetchResponse code data_error \<Rightarrow>
                if \<not> (200 \<le> code \<and> code \<le> 299) then
                  \<lparr>page = st2\<lparr>error :=
                              (if code = 409 then ''Bruker finnes allerede''
                               else if code = 400 then
                                 (case data_error of
                                    None \<Rightarrow> ''Mangler felter''
                                  | Some s \<Rightarrow> if s = [] then ''Mangler felter'' else s)
                               else msg_server),
                            loading := False\<rparr>,
                   fetch_called = True, signIn_called = False, pushed = None\<rparr>
                else
                  (case sr of
                     SignInThrows nm \<Rightarrow>
                       \<lparr>page = st2\<lparr>error := catch_message nm, loading := False\<rparr>,
                        fetch_called = True, signIn_called = True, pushed = None\<rparr>
                   | SignInReturns r_error \<Rightarrow>
                       if truthy r_error then
                         \<lparr>page = st2\<lparr>error := msg_credentials, loading := False\<rparr>,
                          fetch_called = True, signIn_called = True, pushed = None\<rparr>
                       else
                         \<lparr>page = st2\<lparr>loading := False\<rparr>,
                          fetch_called = True, signIn_called = True,
                          pushed = Some ''/profile''\<rparr>)))"

section \<open>Worked-example data\<close>

text \<open>
  A stand-in for bcryptjs in the worked examples: it keeps the two facts the routes rely
  on, that a password verifies against its own hash and that a hash is never empty.
\<close>

definition demo_hash :: "string \<Rightarrow> nat \<Rightarrow> string" where
  "demo_hash p rounds = CHR ''#'' # p"

definition demo_compare :: "string \<Rightarrow> string \<Rightarrow> bool" where
  "demo_compare p h = (h = CHR ''#'' # p)"

definition alice :: user where
  "alice = \<lparr>user_id = NumId 1, user_email = ''a@x.com'', user_username = ''alice'',
            user_passwordHash = Some (demo_hash ''secret123'' 12), user_displayName = None\<rparr>"

definition federated :: user where
  "federated = \<lparr>user_id = NumId 2, user_email = ''f@x.com'', user_username = ''fed'',
            user_passwordHash = None, user_displayName = Some ''Fed''\<rparr>"

text \<open>Two registration requests: the second asks for the email of the first.\<close>

definition alice_request :: request where
  "alice_request = Json \<lparr>email = Some ''a@x.com'', username = Some ''alice'',
                           password = Some ''secret123'', displayName = None\<rparr>"

definition rival_request :: request where
  "rival_request = Json \<lparr>email = Some ''a@x.com'', username = Some ''rival'',
                           password = Some ''hunter2'', displayName = Some ''Rival''\<rparr>"

text \<open>The form with the display-name field left blank.\<close>

definition blank_name_form :: form where
  "blank_name_form = initial_form\<lparr>f_email := ''a@x.com'', f_username := ''alice'',
                                    f_password := ''secret123''\<rparr>"

section \<open>Properties of authorize\<close>

lemma authorize_Some_iff:
  "authorize compare rows creds = Some i \<longleftrightarrow>
     (\<exists>c e p u h. creds = Some c \<and> cred_email c = Some e \<and> e \<noteq> [] \<and>
        cred_password c = Some p \<and> p \<noteq> [] \<and> findUnique_email rows e = Some u \<and>
        user_passwordHash u = Some h \<and> h \<noteq> [] \<and> compare p h \<and>
        i = \<lparr>ident_id = user_id u,
             ident_name = (case user_displayName u of None \<Rightarrow> user_username u | Some d \<Rightarrow> d),
             ident_email = user_email u\<rparr>)"
proof (cases creds)
  case None then show ?thesis by (simp add: authorize_def)
next
  case (Some c)
  show ?thesis
  proof (cases "cred_email c")
    case None with Some show ?thesis by (simp add: authorize_def)
  next
    case e: (Some e)
    show ?thesis
    proof (cases "cred_password c")
      case None with Some e show ?thesis by (simp add: authorize_def)
    next
      case p: (Some p)
      show ?thesis
      proof (cases "findUnique_email rows e")
        case None with Some e p show ?thesis by (simp add: authorize_def)
      next
        case u: (Some u)
        show ?thesis
        proof (cases "user_passwordHash u")
          case None with Some e p u show ?thesis by (simp add: authorize_def)
        next
          case h: (Some h)
          with Some e p u show ?thesis by (simp add: authorize_def) blast
        qed
      qed
    qed
  qed
qed

lemma authorize_None_causes:
  assumes "findUnique_email rows e = None
           \<or> (\<exists>u. findUnique_email rows e = Some u \<and> \<not> truthy (user_passwordHash u))
           \<or> (\<exists>u h. findUnique_email rows e = Some u \<and> user_passwordHash u = Some h
                \<and> \<not> compare p h)"
  shows "authorize compare rows (Some \<lparr>cred_email = Some e, cred_password = Some p\<rparr>) = None"
proof (cases "findUnique_email rows e")
  case None
  then show ?thesis by (simp add: authorize_def)
next
  case (Some u)
  show ?thesis
  proof (cases "user_passwordHash u")
    case None
    with Some show ?thesis by (simp add: authorize_def)
  next
    case h: (Some h)
    with Some assms have "h = [] \<or> \<not> compare p h"
      by (simp add: truthy_def)
    with Some h show ?thesis by (auto simp add: authorize_def)
  qed
qed

text \<open>
  C2. \<open>authorize\<close> returns an identity exactly when the credentials carry a non-empty
  email and a non-empty password, a row with that email is found, the row has a
  (non-empty) password hash and the password verifies against it; the identity is then
  the row's id, its display name or else its username, and its email, and nothing else:
  an \<open>identity\<close> has no further field.
\<close>

theorem authorize_succeeds_iff:
  "(authorize compare rows creds \<noteq> None \<longleftrightarrow>
      (\<exists>c e p u h. creds = Some c \<and> cred_email c = Some e \<and> e \<noteq> [] \<and>
         cred_password c = Some p \<and> p \<noteq> [] \<and> findUnique_email rows e = Some u \<and>
         user_passwordHash u = Some h \<and> h \<noteq> [] \<and> compare p h))
   \<and> (\<forall>i. authorize compare rows creds = Some i \<longrightarrow>
         (\<exists>c e u. creds = Some c \<and> cred_email c = Some e \<and>
            findUnique_email rows e = Some u \<and> user_email u = e \<and>
            i = \<lparr>ident_id = user_id u,
                 ident_name = (case user_displayName u of
                                 None \<Rightarrow> user_username u | Some d \<Rightarrow> d),
                 ident_email = user_email u\<rparr>))"
proof (intro conjI allI impI iffI)
  assume "authorize compare rows creds \<noteq> None"
  then obtain i where "authorize compare rows creds = Some i" by blast
  then show "\<exists>c e p u h. creds = Some c \<and> cred_email c = Some e \<and> e \<noteq> [] \<and>
         cred_password c = Some p \<and> p \<noteq> [] \<and> findUnique_email rows e = Some u \<and>
         user_passwordHash u = Some h \<and> h \<noteq> [] \<and> compare p h"
    unfolding authorize_Some_iff by blast
next
  assume "\<exists>c e p u h. creds = Some c \<and> cred_email c = Some e \<and> e \<noteq> [] \<and>
         cred_password c = Some p \<and> p \<noteq> [] \<and> findUnique_email rows e = Some u \<and>
         user_passwordHash u = Some h \<and> h \<noteq> [] \<and> compare p h"
  then obtain c e p u h where "creds = Some c \<and> cred_email c = Some e \<and> e \<noteq> [] \<and>
         cred_password c = Some p \<and> p \<noteq> [] \<and> findUnique_email rows e = Some u \<and>
         user_passwordHash u = Some h \<and> h \<noteq> [] \<and> compare p h"
    by blast
  then have "authorize compare rows creds = Some \<lparr>ident_id = user_id u,
             ident_name = (case user_displayName u of None \<Rightarrow> user_username u | Some d \<Rightarrow> d),
             ident_email = user_email u\<rparr>"
    unfolding authorize_Some_iff by blast
  then show "authorize compare rows creds \<noteq> None" by simp
next
  fix i assume "authorize compare rows creds = Some i"
  then obtain c e u where h: "creds = Some c" "cred_email c = Some e"
      "findUnique_email rows e = Some u"
      "i = \<lparr>ident_id = user_id u,
             ident_name = (case user_displayName u of None \<Rightarrow> user_username u | Some d \<Rightarrow> d),
             ident_email = user_email u\<rparr>"
    unfolding authorize_Some_iff by blast
  from h(3) have "user_email u = e"
    unfolding findUnique_email_def by (auto simp: find_Some_iff)
  with h show "\<exists>c e u. creds = Some c \<and> cred_email c = Some e \<and>
            findUnique_email rows e = Some u \<and> user_email u = e \<and>
            i = \<lparr>ident_id = user_id u,
                 ident_name = (case user_displayName u of
                                 None \<Rightarrow> user_username u | Some d \<Rightarrow> d),
                 ident_email = user_email u\<rparr>"
    by blast
qed

theorem authorize_succeeds_iff_witness:
  "authorize demo_compare [alice]
     (Some \<lparr>cred_email = Some ''a@x.com'', cred_password = Some ''secret123''\<rparr>)
   = Some \<lparr>ident_id = NumId 1, ident_name = ''alice'', ident_email = ''a@x.com''\<rparr>
   \<and> authorize demo_compare [alice]
     (Some \<lparr>cred_email = Some ''a@x.com'', cred_password = Some ''wrong''\<rparr>) = None"
proof -
  let ?ok = "Some \<lparr>cred_email = Some ''a@x.com'', cred_password = Some ''secret123''\<rparr>"
  let ?bad = "Some \<lparr>cred_email = Some ''a@x.com'', cred_password = Some ''wrong''\<rparr>"
  have f: "findUnique_email [alice] ''a@x.com'' = Some alice"
    by (simp add: findUnique_email_def alice_def)
  have "authorize demo_compare [alice] ?ok \<noteq> None"
    using authorize_succeeds_iff [of demo_compare "[alice]" ?ok] f
    by (simp add: alice_def demo_compare_def demo_hash_def)
  then obtain i where i: "authorize demo_compare [alice] ?ok = Some i" by blast
  then have "i = \<lparr>ident_id = NumId 1, ident_name = ''alice'', ident_email = ''a@x.com''\<rparr>"
    using authorize_succeeds_iff [of demo_compare "[alice]" ?ok] f
    by (auto simp: alice_def)
  moreover have "authorize demo_compare [alice] ?bad = None"
    using authorize_succeeds_iff [of demo_compare "[alice]" ?bad] f
    by (auto simp: alice_def demo_compare_def demo_hash_def)
  ultimately show ?thesis using i by simp
qed

text \<open>
  C3. Two rejected calls cannot be told apart by their results: whether a call is
  rejected because no row has the email, because the row has no password hash, or
  because the password does not verify against the hash, it returns \<open>None\<close>.
\<close>

theorem authorize_rejections_indistinguishable:
  assumes "findUnique_email rows1 e1 = None
           \<or> (\<exists>u. findUnique_email rows1 e1 = Some u \<and> \<not> truthy (user_passwordHash u))
           \<or> (\<exists>u h. findUnique_email rows1 e1 = Some u \<and> user_passwordHash u = Some h
                \<and> \<not> compare p1 h)"
    and "findUnique_email rows2 e2 = None
           \<or> (\<exists>u. findUnique_email rows2 e2 = Some u \<and> \<not> truthy (user_passwordHash u))
           \<or> (\<exists>u h. findUnique_email rows2 e2 = Some u \<and> user_passwordHash u = Some h
                \<and> \<not> compare p2 h)"
  shows "authorize compare rows1 (Some \<lparr>cred_email = Some e1, cred_password = Some p1\<rparr>) = None
       \<and> authorize compare rows2 (Some \<lparr>cred_email = Some e2, cred_password = Some p2\<rparr>) = None
       \<and> authorize compare rows1 (Some \<lparr>cred_email = Some e1, cred_password = Some p1\<rparr>)
         = authorize compare rows2 (Some \<lparr>cred_email = Some e2, cred_password = Some p2\<rparr>)"
proof -
  have "authorize compare rows1 (Some \<lparr>cred_email = Some e1, cred_password = Some p1\<rparr>) = None"
    using assms(1) by (rule authorize_None_causes [where rows = rows1 and e = e1 and p = p1])
  moreover
  have "authorize compare rows2 (Some \<lparr>cred_email = Some e2, cred_password = Some p2\<rparr>) = None"
    using assms(2) by (rule authorize_None_causes [where rows = rows2 and e = e2 and p = p2])
  ultimately show ?thesis by simp
qed

theorem authorize_rejections_indistinguishable_witness:
  "authorize demo_compare [alice, federated]
      (Some \<lparr>cred_email = Some ''nobody@x.com'', cred_password = Some ''secret123''\<rparr>) = None
   \<and> authorize demo_compare [alice, federated]
      (Some \<lparr>cred_email = Some ''a@x.com'', cred_password = Some ''wrong''\<rparr>) = None
   \<and> authorize demo_compare [alice, federated]
      (Some \<lparr>cred_email = Some ''f@x.com'', cred_password = Some ''secret123''\<rparr>) = None"
proof -
  have n: "findUnique_email [alice, federated] ''nobody@x.com'' = None"
    by (simp add: findUnique_email_def alice_def federated_def)
  have w: "\<exists>u h. findUnique_email [alice, federated] ''a@x.com'' = Some u
             \<and> user_passwordHash u = Some h \<and> \<not> demo_compare ''wrong'' h"
    by (simp add: findUnique_email_def alice_def demo_compare_def demo_hash_def)
  have f: "\<exists>u. findUnique_email [alice, federated] ''f@x.com'' = Some u
             \<and> \<not> truthy (user_passwordHash u)"
    by (simp add: findUnique_email_def alice_def federated_def truthy_def)
  from authorize_rejections_indistinguishable
         [where ?rows1.0 = "[alice, federated]" and ?e1.0 = "''nobody@x.com''"
            and ?p1.0 = "''secret123''" and compare = demo_compare
            and ?rows2.0 = "[alice, federated]" and ?e2.0 = "''a@x.com''"
            and ?p2.0 = "''wrong''"] n w
  have a: "authorize demo_compare [alice, federated]
      (Some \<lparr>cred_email = Some ''nobody@x.com'', cred_password = Some ''secret123''\<rparr>) = None
   \<and> authorize demo_compare [alice, federated]
      (Some \<lparr>cred_email = Some ''a@x.com'', cred_password = Some ''wrong''\<rparr>) = None"
    by blast
  from authorize_rejections_indistinguishable
         [where ?rows1.0 = "[alice, federated]" and ?e1.0 = "''f@x.com''"
            and ?p1.0 = "''secret123''" and compare = demo_compare
            and ?rows2.0 = "[alice, federated]" and ?e2.0 = "''a@x.com''"
            and ?p2.0 = "''wrong''"] f w
  have "authorize demo_compare [alice, federated]
      (Some \<lparr>cred_email = Some ''f@x.com'', cred_password = Some ''secret123''\<rparr>) = None"
    by blast
  with a show ?thesis by simp
qed

section \<open>Properties of the session callbacks\<close>

text \<open>
  C7. When \<open>authorize\<close> has just produced an identity, \<open>jwt\<close> returns the token with
  \<open>userId\<close> set to the identity's id and every other claim as it was; with no identity
  it returns the token as it was.
\<close>

theorem jwt_sets_userId_or_keeps_token:
  "jwt tok (Some u) = tok\<lparr>userId := Some (ident_id u)\<rparr>
   \<and> token.more (jwt tok (Some u)) = token.more tok
   \<and> userId (jwt tok (Some u)) = Some (ident_id u)
   \<and> jwt tok None = tok"
  by (simp add: jwt_def)

theorem jwt_sets_userId_or_keeps_token_witness:
  "jwt \<lparr>userId = Some (NumId 9), \<dots> = ''sub-claim''\<rparr>
       (Some \<lparr>ident_id = NumId 1, ident_name = ''alice'', ident_email = ''a@x.com''\<rparr>)
     = \<lparr>userId = Some (NumId 1), \<dots> = ''sub-claim''\<rparr>
   \<and> jwt \<lparr>userId = Some (NumId 9), \<dots> = ''sub-claim''\<rparr> None
     = \<lparr>userId = Some (NumId 9), \<dots> = ''sub-claim''\<rparr>"
  using jwt_sets_userId_or_keeps_token
          [of "\<lparr>userId = Some (NumId 9), \<dots> = ''sub-claim''\<rparr>"
              "\<lparr>ident_id = NumId 1, ident_name = ''alice'', ident_email = ''a@x.com''\<rparr>"]
  by simp

text \<open>
  C8, as the code has it. The session returned by \<open>session\<close> always has a user
  object, and the rest of the session is as it was. When the token's \<open>userId\<close> is truthy
  (not the number 0, not the empty string), that user object's id is the \<open>userId\<close>.
\<close>

theorem session_sets_user_id:
  "(\<exists>u. s_user (session s tok) = Some u)
   \<and> session_view.more (session s tok) = session_view.more s
   \<and> (\<forall>t i. tok = Some t \<and> userId t = Some i \<and> truthy_id i \<longrightarrow>
         (\<exists>u. s_user (session s tok) = Some u \<and> su_id u = Some i))"
  by (auto simp: session_def Let_def split: option.splits)

theorem session_sets_user_id_witness:
  "\<exists>u. s_user (session \<lparr>s_user = None\<rparr> (Some \<lparr>userId = Some (NumId 1)\<rparr>)) = Some u
        \<and> su_id u = Some (NumId 1)"
  using session_sets_user_id [of "\<lparr>s_user = None\<rparr>" "Some \<lparr>userId = Some (NumId 1)\<rparr>"]
  by simp

text \<open>
  A token whose \<open>userId\<close> claim is the number 0 carries a \<open>userId\<close>, yet the test
  \<open>if (token?.userId)\<close> skips it: the session's user object is created and its id stays
  undefined.
\<close>

theorem session_falsy_userId_counterexample:
  "map_option su_id (s_user (session \<lparr>s_user = None\<rparr> (Some \<lparr>userId = Some (NumId 0)\<rparr>)))
     = Some None"
  by (simp add: session_def empty_user_def)

section \<open>Properties of the registration endpoint\<close>

lemma findFirst_None_iff:
  "findFirst_email_or_username rows e n = None \<longleftrightarrow>
     (\<forall>u \<in> set rows. user_email u \<noteq> e \<and> user_username u \<noteq> n)"
  by (auto simp: findFirst_email_or_username_def find_None_iff)

lemma findFirst_Some_ex:
  "(\<exists>x. findFirst_email_or_username rows e n = Some x) \<longleftrightarrow>
     (\<exists>u \<in> set rows. user_email u = e \<or> user_username u = n)"
  using findFirst_None_iff [of rows e n] by (cases "findFirst_email_or_username rows e n") auto

lemma POST_check_invalid:
  assumes "\<not> truthy (email b) \<or> \<not> truthy (username b) \<or> \<not> truthy (password b)"
  shows "POST_check (Json b) rows =
           Inl \<lparr>reply = \<lparr>status = 400, body = ErrorBody ''Mangler felter''\<rparr>,
                table = rows, store_calls = []\<rparr>"
proof (cases "email b")
  case None then show ?thesis by (simp add: POST_check_def)
next
  case e: (Some e)
  show ?thesis
  proof (cases "username b")
    case None with e show ?thesis by (simp add: POST_check_def)
  next
    case n: (Some n)
    show ?thesis
    proof (cases "password b")
      case None with e n show ?thesis by (simp add: POST_check_def)
    next
      case (Some p)
      with e n assms have "e = [] \<or> n = [] \<or> p = []" by (simp add: truthy_def)
      with e n Some show ?thesis by (simp add: POST_check_def)
    qed
  qed
qed

lemma POST_check_valid:
  assumes "email b = Some e" "e \<noteq> []" "username b = Some n" "n \<noteq> []"
    "password b = Some p" "p \<noteq> []"
  shows "POST_check (Json b) rows =
           (case findFirst_email_or_username rows e n of
              Some x \<Rightarrow>
                Inl \<lparr>reply = \<lparr>status = 409, body = ErrorBody ''bruker finnes allerede''\<rparr>,
                     table = rows, store_calls = [FindFirst]\<rparr>
            | None \<Rightarrow> Inr (e, n, p, displayName b))"
  using assms by (simp add: POST_check_def)

lemma POST_create_fresh:
  assumes "\<forall>u \<in> set rows. user_email u \<noteq> e \<and> user_username u \<noteq> n"
  shows "POST_create hash new_id e n p d rows =
           \<lparr>reply = \<lparr>status = 201, body = UserBody new_id e n\<rparr>,
            table = rows @ [\<lparr>user_id = new_id, user_email = e, user_username = n,
                              user_passwordHash = Some (hash p 12), user_displayName = d\<rparr>],
            store_calls = [FindFirst, Create]\<rparr>"
proof -
  from assms have "\<not> (\<exists>u \<in> set rows. user_email u = e \<or> user_username u = n)" by blast
  then show ?thesis by (simp add: POST_create_def user_create_def Let_def)
qed

lemma POST_create_taken:
  assumes "\<exists>u \<in> set rows. user_email u = e \<or> user_username u = n"
  shows "POST_create hash new_id e n p d rows =
           \<lparr>reply = \<lparr>status = 500, body = ErrorBody ''Serverfeil''\<rparr>,
            table = rows, store_calls = [FindFirst, Create]\<rparr>"
  using assms by (simp add: POST_create_def user_create_def Let_def)

lemma POST_valid_fresh:
  assumes "email b = Some e" "e \<noteq> []" "username b = Some n" "n \<noteq> []"
    "password b = Some p" "p \<noteq> []"
    and "\<forall>u \<in> set rows. user_email u \<noteq> e \<and> user_username u \<noteq> n"
  shows "POST hash new_id (Json b) rows =
           \<lparr>reply = \<lparr>status = 201, body = UserBody new_id e n\<rparr>,
            table = rows @ [\<lparr>user_id = new_id, user_email = e, user_username = n,
                              user_passwordHash = Some (hash p 12),
                              user_displayName = displayName b\<rparr>],
            store_calls = [FindFirst, Create]\<rparr>"
proof -
  from assms(7) have "findFirst_email_or_username rows e n = None"
    by (simp only: findFirst_None_iff)
  with POST_check_valid [OF assms(1-6), of rows]
  have "POST_check (Json b) rows = Inr (e, n, p, displayName b)" by simp
  then show ?thesis by (simp add: POST_def POST_create_fresh [OF assms(7)])
qed

lemma POST_valid_taken:
  assumes "email b = Some e" "e \<noteq> []" "username b = Some n" "n \<noteq> []"
    "password b = Some p" "p \<noteq> []"
    and "\<exists>u \<in> set rows. user_email u = e \<or> user_username u = n"
  shows "POST hash new_id (Json b) rows =
           \<lparr>reply = \<lparr>status = 409, body = ErrorBody ''bruker finnes allerede''\<rparr>,
            table = rows, store_calls = [FindFirst]\<rparr>"
proof -
  from assms(7) obtain x where "findFirst_email_or_username rows e n = Some x"
    by (simp only: findFirst_Some_ex [symmetric]) blast
  with POST_check_valid [OF assms(1-6), of rows]
  have "POST_check (Json b) rows =
          Inl \<lparr>reply = \<lparr>status = 409, body = ErrorBody ''bruker finnes allerede''\<rparr>,
               table = rows, store_calls = [FindFirst]\<rparr>" by simp
  then show ?thesis by (simp add: POST_def)
qed





lemma POST_twice_same_email:
  assumes "email b1 = Some e" "e \<noteq> []" "username b1 = Some n1" "n1 \<noteq> []"
    "password b1 = Some p1" "p1 \<noteq> []"
    and "\<forall>u \<in> set rows. user_email u \<noteq> e \<and> user_username u \<noteq> n1"
    and "email b2 = Some e" "username b2 = Some n2" "n2 \<noteq> []"
    "password b2 = Some p2" "p2 \<noteq> []"
  shows "status (reply (POST hash2 id2 (Json b2) (table (POST hash1 id1 (Json b1) rows)))) = 409
       \<and> table (POST hash2 id2 (Json b2) (table (POST hash1 id1 (Json b1) rows)))
           = table (POST hash1 id1 (Json b1) rows)
       \<and> length (filter (\<lambda>u. user_email u = e)
           (table (POST hash2 id2 (Json b2) (table (POST hash1 id1 (Json b1) rows))))) = 1"
proof -
  let ?u = "\<lparr>user_id = id1, user_email = e, user_username = n1,
             user_passwordHash = Some (hash1 p1 12), user_displayName = displayName b1\<rparr>"
  have t1: "table (POST hash1 id1 (Json b1) rows) = rows @ [?u]"
    by (subst POST_valid_fresh [OF assms(1-7)]) simp
  have "\<exists>u \<in> set (rows @ [?u]). user_email u = e \<or> user_username u = n2" by simp
  with assms(8,2,9-12)
  have second: "POST hash2 id2 (Json b2) (rows @ [?u]) =
           \<lparr>reply = \<lparr>status = 409, body = ErrorBody ''bruker finnes allerede''\<rparr>,
            table = rows @ [?u], store_calls = [FindFirst]\<rparr>"
    by (rule POST_valid_taken)
  from assms(7) have "filter (\<lambda>u. user_email u = e) rows = []"
    by (simp add: filter_empty_conv)
  then have len: "length (filter (\<lambda>u. user_email u = e) (rows @ [?u])) = 1" by simp
  show ?thesis unfolding t1 second using len by simp
qed

text \<open>
  C4, as the code has it. A request with non-empty email, username and password, for
  which a row with the same email or the same username exists, is answered with 409
  whatever the password and the display name are; the table is unchanged and the only
  call to the store is the read. So when a registration has created a row, a second
  registration with the same email is answered with 409 and the table holds exactly one
  row with that email.
\<close>

theorem POST_existing_user:
  "(email b = Some e \<and> e \<noteq> [] \<and> username b = Some n \<and> n \<noteq> []
      \<and> password b = Some p \<and> p \<noteq> []
      \<and> (\<exists>u \<in> set rows. user_email u = e \<or> user_username u = n) \<longrightarrow>
        POST hash new_id (Json b) rows =
           \<lparr>reply = \<lparr>status = 409, body = ErrorBody ''bruker finnes allerede''\<rparr>,
            table = rows, store_calls = [FindFirst]\<rparr>)
   \<and> (email b1 = Some e \<and> e \<noteq> [] \<and> username b1 = Some n1 \<and> n1 \<noteq> []
      \<and> password b1 = Some p1 \<and> p1 \<noteq> []
      \<and> (\<forall>u \<in> set rows. user_email u \<noteq> e \<and> user_username u \<noteq> n1)
      \<and> email b2 = Some e \<and> username b2 = Some n2 \<and> n2 \<noteq> []
      \<and> password b2 = Some p2 \<and> p2 \<noteq> [] \<longrightarrow>
        status (reply (POST hash2 id2 (Json b2) (table (POST hash1 id1 (Json b1) rows)))) = 409
        \<and> table (POST hash2 id2 (Json b2) (table (POST hash1 id1 (Json b1) rows)))
            = table (POST hash1 id1 (Json b1) rows)
        \<and> length (filter (\<lambda>u. user_email u = e)
            (table (POST hash2 id2 (Json b2) (table (POST hash1 id1 (Json b1) rows))))) = 1)"
proof (intro conjI impI)
  assume "email b = Some e \<and> e \<noteq> [] \<and> username b = Some n \<and> n \<noteq> []
      \<and> password b = Some p \<and> p \<noteq> []
      \<and> (\<exists>u \<in> set rows. user_email u = e \<or> user_username u = n)"
  then show "POST hash new_id (Json b) rows =
           \<lparr>reply = \<lparr>status = 409, body = ErrorBody ''bruker finnes allerede''\<rparr>,
            table = rows, store_calls = [FindFirst]\<rparr>"
    by (intro POST_valid_taken [where e = e and n = n and p = p]) simp_all
next
  assume a: "email b1 = Some e \<and> e \<noteq> [] \<and> username b1 = Some n1 \<and> n1 \<noteq> []
      \<and> password b1 = Some p1 \<and> p1 \<noteq> []
      \<and> (\<forall>u \<in> set rows. user_email u \<noteq> e \<and> user_username u \<noteq> n1)
      \<and> email b2 = Some e \<and> username b2 = Some n2 \<and> n2 \<noteq> []
      \<and> password b2 = Some p2 \<and> p2 \<noteq> []"
  have "status (reply (POST hash2 id2 (Json b2) (table (POST hash1 id1 (Json b1) rows)))) = 409
       \<and> table (POST hash2 id2 (Json b2) (table (POST hash1 id1 (Json b1) rows)))
           = table (POST hash1 id1 (Json b1) rows)
       \<and> length (filter (\<lambda>u. user_email u = e)
           (table (POST hash2 id2 (Json b2) (table (POST hash1 id1 (Json b1) rows))))) = 1"
    using a by (intro POST_twice_same_email [where ?n1.0 = n1 and ?p1.0 = p1 and ?n2.0 = n2
          and ?p2.0 = p2]) simp_all
  then show "status (reply (POST hash2 id2 (Json b2) (table (POST hash1 id1 (Json b1) rows)))) = 409"
    and "table (POST hash2 id2 (Json b2) (table (POST hash1 id1 (Json b1) rows)))
            = table (POST hash1 id1 (Json b1) rows)"
    and "length (filter (\<lambda>u. user_email u = e)
            (table (POST hash2 id2 (Json b2) (table (POST hash1 id1 (Json b1) rows))))) = 1"
    by blast+
qed

text \<open>
  Registering twice with the same email: the first call creates the row, the second is
  answered with 409 and the table still holds exactly one row with that email.
\<close>

theorem POST_existing_user_witness:
  "table (POST demo_hash (NumId 1) alice_request []) = [alice]
   \<and> POST demo_hash (NumId 2) rival_request [alice]
     = \<lparr>reply = \<lparr>status = 409, body = ErrorBody ''bruker finnes allerede''\<rparr>,
        table = [alice], store_calls = [FindFirst]\<rparr>
   \<and> status (reply (POST demo_hash (NumId 2) rival_request
        (table (POST demo_hash (NumId 1) alice_request [])))) = 409
   \<and> length (filter (\<lambda>u. user_email u = ''a@x.com'')
        (table (POST demo_hash (NumId 2) rival_request
           (table (POST demo_hash (NumId 1) alice_request []))))) = 1"
proof -
  let ?b1 = "\<lparr>email = Some ''a@x.com'', username = Some ''alice'',
              password = Some ''secret123'', displayName = None\<rparr>"
  let ?b2 = "\<lparr>email = Some ''a@x.com'', username = Some ''rival'',
              password = Some ''hunter2'', displayName = Some ''Rival''\<rparr>"
  note inst = POST_existing_user
      [where b = ?b2 and e = "''a@x.com''" and n = "''rival''" and p = "''hunter2''"
         and rows = "[alice]" and hash = demo_hash and new_id = "NumId 2"
         and ?b1.0 = ?b1 and ?n1.0 = "''alice''" and ?p1.0 = "''secret123''"
         and ?b2.0 = ?b2 and ?n2.0 = "''rival''" and ?p2.0 = "''hunter2''"
         and ?hash1.0 = demo_hash and ?hash2.0 = demo_hash
         and ?id1.0 = "NumId 1" and ?id2.0 = "NumId 2"]
  have first: "table (POST demo_hash (NumId 1) alice_request []) = [alice]"
    unfolding alice_request_def
    by (subst POST_valid_fresh [where e = "''a@x.com''" and n = "''alice''"
          and p = "''secret123''"]) (simp_all add: alice_def)
  have second: "POST demo_hash (NumId 2) rival_request [alice]
     = \<lparr>reply = \<lparr>status = 409, body = ErrorBody ''bruker finnes allerede''\<rparr>,
        table = [alice], store_calls = [FindFirst]\<rparr>"
    using inst by (simp add: rival_request_def alice_def)
  from first second show ?thesis by (simp add: alice_def)
qed

text \<open>
  A request for an email that is taken, with an empty password, is answered with 400,
  not with 409: the fields are validated before the store is read.
\<close>

theorem POST_existing_user_empty_password_counterexample:
  "status (reply (POST demo_hash (NumId 2)
     (Json \<lparr>email = Some ''a@x.com'', username = Some ''alice'', password = Some [],
            displayName = None\<rparr>) [alice])) = 400"
  by (simp add: POST_def POST_check_def)




lemma POST_create_not_409:
  "status (reply (POST_create hash new_id e n p d rows)) \<noteq> 409"
  by (simp add: POST_create_def Let_def split: sum.split prod.split)

lemma POST_409_iff:
  "status (reply (POST hash new_id req rows)) = 409 \<longleftrightarrow>
     (\<exists>b e n p. req = Json b \<and> email b = Some e \<and> e \<noteq> [] \<and> username b = Some n \<and> n \<noteq> []
        \<and> password b = Some p \<and> p \<noteq> [] \<and> findFirst_email_or_username rows e n \<noteq> None)"
proof (cases req)
  case Unreadable
  then show ?thesis by (simp add: POST_def POST_check_def)
next
  case (Json b)
  show ?thesis
  proof (cases "\<not> truthy (email b) \<or> \<not> truthy (username b) \<or> \<not> truthy (password b)")
    case True
    from POST_check_invalid [OF True, of rows]
    have "status (reply (POST hash new_id (Json b) rows)) = 400" by (simp add: POST_def)
    moreover from True have "\<not> (\<exists>e n p. email b = Some e \<and> e \<noteq> [] \<and> username b = Some n
        \<and> n \<noteq> [] \<and> password b = Some p \<and> p \<noteq> []
        \<and> findFirst_email_or_username rows e n \<noteq> None)"
      by (auto simp: truthy_def)
    ultimately show ?thesis using Json by simp
  next
    case False
    then obtain e n p where v: "email b = Some e" "e \<noteq> []" "username b = Some n" "n \<noteq> []"
      "password b = Some p" "p \<noteq> []"
      by (auto simp: truthy_def split: option.splits)
    show ?thesis
    proof (cases "findFirst_email_or_username rows e n")
      case None
      with POST_check_valid [OF v, of rows]
      have "POST hash new_id (Json b) rows = POST_create hash new_id e n p (displayName b) rows"
        by (simp add: POST_def)
      with POST_create_not_409 [of hash new_id e n p "displayName b" rows] None v Json
      show ?thesis by simp
    next
      case (Some x)
      with POST_check_valid [OF v, of rows]
      have "status (reply (POST hash new_id (Json b) rows)) = 409" by (simp add: POST_def)
      with Some v Json show ?thesis by simp
    qed
  qed
qed

text \<open>
  C6, as the code has it. The store's \<open>create\<close> rejects a row whose email or username is
  taken, but the endpoint does not turn that rejection into a conflict: it answers 409
  exactly when the read made before the insert finds a row, and when \<open>create\<close> itself
  fails, its second segment answers 500 and leaves the table as it was. The second segment
  never answers 409.
\<close>

theorem POST_conflict_only_from_prior_read:
  "(status (reply (POST hash new_id req rows)) = 409 \<longleftrightarrow>
      (\<exists>b e n p. req = Json b \<and> email b = Some e \<and> e \<noteq> [] \<and> username b = Some n \<and> n \<noteq> []
         \<and> password b = Some p \<and> p \<noteq> [] \<and> findFirst_email_or_username rows e n \<noteq> None))
   \<and> status (reply (POST_create hash new_id e' n' p' d' rows')) \<noteq> 409
   \<and> ((\<exists>u \<in> set rows'. user_email u = e' \<or> user_username u = n') \<longrightarrow>
         user_create new_id e' n' (hash p' 12) d' rows' = Inl UniqueConstraintViolation
         \<and> POST_create hash new_id e' n' p' d' rows'
             = \<lparr>reply = \<lparr>status = 500, body = ErrorBody ''Serverfeil''\<rparr>,
                table = rows', store_calls = [FindFirst, Create]\<rparr>)"
proof (intro conjI impI)
  show "status (reply (POST hash new_id req rows)) = 409 \<longleftrightarrow>
      (\<exists>b e n p. req = Json b \<and> email b = Some e \<and> e \<noteq> [] \<and> username b = Some n \<and> n \<noteq> []
         \<and> password b = Some p \<and> p \<noteq> [] \<and> findFirst_email_or_username rows e n \<noteq> None)"
    by (rule POST_409_iff)
  show "status (reply (POST_create hash new_id e' n' p' d' rows')) \<noteq> 409"
    by (rule POST_create_not_409)
next
  assume t: "\<exists>u \<in> set rows'. user_email u = e' \<or> user_username u = n'"
  then show "user_create new_id e' n' (hash p' 12) d' rows' = Inl UniqueConstraintViolation"
    by (simp add: user_create_def)
  from t show "POST_create hash new_id e' n' p' d' rows'
             = \<lparr>reply = \<lparr>status = 500, body = ErrorBody ''Serverfeil''\<rparr>,
                table = rows', store_calls = [FindFirst, Create]\<rparr>"
    by (rule POST_create_taken)
qed

theorem POST_conflict_only_from_prior_read_witness:
  "status (reply (POST demo_hash (NumId 2) rival_request [alice])) = 409
   \<and> POST_create demo_hash (NumId 2) ''a@x.com'' ''rival'' ''hunter2'' (Some ''Rival'') [alice]
       = \<lparr>reply = \<lparr>status = 500, body = ErrorBody ''Serverfeil''\<rparr>,
          table = [alice], store_calls = [FindFirst, Create]\<rparr>"
proof -
  have "findFirst_email_or_username [alice] ''a@x.com'' ''rival'' \<noteq> None"
    by (simp add: findFirst_email_or_username_def alice_def)
  then have "\<exists>b e n p. rival_request = Json b \<and> email b = Some e \<and> e \<noteq> []
       \<and> username b = Some n \<and> n \<noteq> [] \<and> password b = Some p \<and> p \<noteq> []
       \<and> findFirst_email_or_username [alice] e n \<noteq> None"
    by (simp add: rival_request_def)
  moreover have "\<exists>u \<in> set [alice]. user_email u = ''a@x.com'' \<or> user_username u = ''rival''"
    by (simp add: alice_def)
  ultimately show ?thesis
    using POST_conflict_only_from_prior_read
            [where hash = demo_hash and new_id = "NumId 2" and req = rival_request
               and rows = "[alice]" and e' = "''a@x.com''" and n' = "''rival''"
               and p' = "''hunter2''" and d' = "Some ''Rival''" and rows' = "[alice]"]
    by blast
qed

text \<open>
  Two requests for the same email, both read the empty table before either inserts: both
  pass the check. The first insert creates the row; the second is rejected by the store at
  insert time, and the endpoint answers 500, not 409.
\<close>

theorem POST_insert_time_conflict_counterexample:
  "POST_check alice_request [] = Inr (''a@x.com'', ''alice'', ''secret123'', None)
   \<and> POST_check rival_request [] = Inr (''a@x.com'', ''rival'', ''hunter2'', Some ''Rival'')
   \<and> table (POST_create demo_hash (NumId 1) ''a@x.com'' ''alice'' ''secret123'' None []) = [alice]
   \<and> POST_create demo_hash (NumId 2) ''a@x.com'' ''rival'' ''hunter2'' (Some ''Rival'') [alice]
       = \<lparr>reply = \<lparr>status = 500, body = ErrorBody ''Serverfeil''\<rparr>,
          table = [alice], store_calls = [FindFirst, Create]\<rparr>"
proof (intro conjI)
  show "POST_check alice_request [] = Inr (''a@x.com'', ''alice'', ''secret123'', None)"
    by (simp add: POST_check_def alice_request_def findFirst_email_or_username_def)
  show "POST_check rival_request [] = Inr (''a@x.com'', ''rival'', ''hunter2'', Some ''Rival'')"
    by (simp add: POST_check_def rival_request_def findFirst_email_or_username_def)
  show "table (POST_create demo_hash (NumId 1) ''a@x.com'' ''alice'' ''secret123'' None []) = [alice]"
    by (simp add: POST_create_def user_create_def alice_def Let_def)
  show "POST_create demo_hash (NumId 2) ''a@x.com'' ''rival'' ''hunter2'' (Some ''Rival'') [alice]
       = \<lparr>reply = \<lparr>status = 500, body = ErrorBody ''Serverfeil''\<rparr>,
          table = [alice], store_calls = [FindFirst, Create]\<rparr>"
    by (simp add: POST_create_def user_create_def alice_def Let_def)
qed

text \<open>
  C10. The page always sends the display name as a string and the endpoint stores it as
  it is, so a blank field is stored as the empty string. For a stored user whose display
  name is the empty string a successful \<open>authorize\<close> returns the empty string as name:
  the username is used only when the display name is null.
\<close>

theorem authorize_blank_displayName:
  "(authorize compare rows (Some c) = Some i \<and> cred_email c = Some e
      \<and> findUnique_email rows e = Some u \<longrightarrow>
        ident_name i = (case user_displayName u of None \<Rightarrow> user_username u | Some d \<Rightarrow> d)
        \<and> (user_displayName u = Some [] \<longrightarrow> ident_name i = []))
   \<and> (f_email f \<noteq> [] \<and> f_username f \<noteq> [] \<and> f_password f \<noteq> []
      \<and> (\<forall>u \<in> set rows'. user_email u \<noteq> f_email f \<and> user_username u \<noteq> f_username f) \<longrightarrow>
        (\<exists>u. table (POST hash new_id (form_request f) rows') = rows' @ [u]
           \<and> user_displayName u = Some (f_displayName f)))"
proof (intro conjI impI)
  assume a: "authorize compare rows (Some c) = Some i \<and> cred_email c = Some e
      \<and> findUnique_email rows e = Some u"
  then have "\<exists>u'. findUnique_email rows e = Some u' \<and>
      i = \<lparr>ident_id = user_id u',
           ident_name = (case user_displayName u' of None \<Rightarrow> user_username u' | Some d \<Rightarrow> d),
           ident_email = user_email u'\<rparr>"
    unfolding authorize_Some_iff by auto
  with a show n: "ident_name i
      = (case user_displayName u of None \<Rightarrow> user_username u | Some d \<Rightarrow> d)"
    by auto
  assume "user_displayName u = Some []"
  with n show "ident_name i = []" by simp
next
  assume v: "f_email f \<noteq> [] \<and> f_username f \<noteq> [] \<and> f_password f \<noteq> []
      \<and> (\<forall>u \<in> set rows'. user_email u \<noteq> f_email f \<and> user_username u \<noteq> f_username f)"
  then have "POST hash new_id (form_request f) rows' =
           \<lparr>reply = \<lparr>status = 201, body = UserBody new_id (f_email f) (f_username f)\<rparr>,
            table = rows' @ [\<lparr>user_id = new_id, user_email = f_email f,
                               user_username = f_username f,
                               user_passwordHash = Some (hash (f_password f) 12),
                               user_displayName = Some (f_displayName f)\<rparr>],
            store_calls = [FindFirst, Create]\<rparr>"
    unfolding form_request_def
    by (subst POST_valid_fresh [where e = "f_email f" and n = "f_username f"
          and p = "f_password f"]) simp_all
  then show "\<exists>u. table (POST hash new_id (form_request f) rows') = rows' @ [u]
           \<and> user_displayName u = Some (f_displayName f)"
    by simp
qed

theorem authorize_blank_displayName_witness:
  "\<exists>u i. table (POST demo_hash (NumId 1) (form_request blank_name_form) []) = [u]
     \<and> user_displayName u = Some []
     \<and> user_username u = ''alice''
     \<and> authorize demo_compare [u]
          (Some \<lparr>cred_email = Some ''a@x.com'', cred_password = Some ''secret123''\<rparr>) = Some i
     \<and> ident_name i = []"
proof -
  let ?c = "\<lparr>cred_email = Some ''a@x.com'', cred_password = Some ''secret123''\<rparr>"
  let ?u = "\<lparr>user_id = NumId 1, user_email = ''a@x.com'', user_username = ''alice'',
             user_passwordHash = Some (demo_hash ''secret123'' 12),
             user_displayName = Some []\<rparr>"
  let ?i = "\<lparr>ident_id = NumId 1, ident_name = [], ident_email = ''a@x.com''\<rparr>"
  have t: "table (POST demo_hash (NumId 1) (form_request blank_name_form) []) = [?u]"
    by (simp add: form_request_def blank_name_form_def initial_form_def POST_def
          POST_check_def findFirst_email_or_username_def POST_create_def user_create_def
          Let_def)
  have f: "findUnique_email [?u] ''a@x.com'' = Some ?u"
    by (simp add: findUnique_email_def)
  have a: "authorize demo_compare [?u] (Some ?c) = Some ?i"
    unfolding authorize_Some_iff using f
    by (simp add: demo_compare_def demo_hash_def)
  from authorize_blank_displayName
         [where compare = demo_compare and rows = "[?u]" and c = ?c and i = ?i
            and e = "''a@x.com''" and u = ?u and f = blank_name_form and rows' = "[]"
            and hash = demo_hash and new_id = "NumId 1"] a f
  have "ident_name ?i = []" by simp
  with t a show ?thesis by simp
qed

section \<open>Properties of the registration page\<close>

lemma msg_timeout_neq_network: "msg_timeout \<noteq> msg_network"
  by (simp add: msg_timeout_def msg_network_def)

lemma msg_timeout_literal:
  "msg_timeout = ''Tidsavbrudd '' @ [CHR 0xE2, CHR 0x80, CHR 0x93] @ '' pr''
                   @ [CHR 0xC3, CHR 0xB8] @ ''v igjen''"
  by (simp add: msg_timeout_def en_dash_def)

lemma msg_network_literal:
  "msg_network = ''Nettverksfeil '' @ [CHR 0xE2, CHR 0x80, CHR 0x93] @ '' sjekk tilkoblingen''"
  by (simp add: msg_network_def en_dash_def)

lemma await_fetch_late:
  assumes "latency = None \<or> (\<exists>t. latency = Some t \<and> timeout_ms < t)"
  shows "await_fetch latency fr = FetchThrows (Some ''AbortError'')"
  using assms by (auto simp: await_fetch_def)

text \<open>
  C9. When the registration call has not settled after 10 seconds it is aborted; a
  submission that was not already in progress then ends with the timeout message shown,
  with \<open>loading\<close> reset to false, without a call to \<open>signIn\<close> and without
  navigation. The timeout message is the text of the source, \<open>Tidsavbrudd\<close>, an en dash
  and the invitation to try again, so the page has a non-empty error to render. It
  differs from the network message, \<open>Nettverksfeil\<close>, an en dash and
  \<open>sjekk tilkoblingen\<close>, which is the one shown for a thrown error of any other name.
\<close>

theorem onSubmit_timeout:
  assumes "\<not> loading st"
    and "latency = None \<or> (\<exists>t. latency = Some t \<and> timeout_ms < t)"
  shows "onSubmit st latency fr sr =
           \<lparr>page = \<lparr>error = msg_timeout, loading = False\<rparr>,
            fetch_called = True, signIn_called = False, pushed = None\<rparr>
       \<and> error (page (onSubmit st latency fr sr))
           = ''Tidsavbrudd '' @ [CHR 0xE2, CHR 0x80, CHR 0x93] @ '' pr''
               @ [CHR 0xC3, CHR 0xB8] @ ''v igjen''
       \<and> error (page (onSubmit st latency fr sr)) \<noteq> []
       \<and> timeout_ms = 10000
       \<and> msg_timeout \<noteq> msg_network
       \<and> (\<forall>t nm. t < timeout_ms \<and> nm \<noteq> Some ''AbortError'' \<longrightarrow>
             page (onSubmit st (Some t) (FetchThrows nm) sr)
               = \<lparr>error = ''Nettverksfeil '' @ [CHR 0xE2, CHR 0x80, CHR 0x93]
                            @ '' sjekk tilkoblingen'',
                  loading = False\<rparr>
             \<and> error (page (onSubmit st (Some t) (FetchThrows nm) sr))
                 \<noteq> error (page (onSubmit st latency fr sr)))"
proof (intro conjI allI impI)
  from assms(1) await_fetch_late [OF assms(2), of fr]
  have out: "onSubmit st latency fr sr =
           \<lparr>page = \<lparr>error = msg_timeout, loading = False\<rparr>,
            fetch_called = True, signIn_called = False, pushed = None\<rparr>"
    by (simp add: onSubmit_def catch_message_def Let_def)
  then have err: "error (page (onSubmit st latency fr sr)) = msg_timeout" by simp
  show "error (page (onSubmit st latency fr sr))
           = ''Tidsavbrudd '' @ [CHR 0xE2, CHR 0x80, CHR 0x93] @ '' pr''
               @ [CHR 0xC3, CHR 0xB8] @ ''v igjen''"
    unfolding err by (rule msg_timeout_literal)
  show "error (page (onSubmit st latency fr sr)) \<noteq> []"
    unfolding err by (simp add: msg_timeout_def)
  fix t nm
  assume h: "t < timeout_ms \<and> nm \<noteq> Some ''AbortError''"
  with assms(1) have net: "page (onSubmit st (Some t) (FetchThrows nm) sr)
               = \<lparr>error = msg_network, loading = False\<rparr>"
    by (simp add: onSubmit_def await_fetch_def catch_message_def Let_def)
  then show "page (onSubmit st (Some t) (FetchThrows nm) sr)
               = \<lparr>error = ''Nettverksfeil '' @ [CHR 0xE2, CHR 0x80, CHR 0x93]
                            @ '' sjekk tilkoblingen'',
                  loading = False\<rparr>"
    by (simp only: msg_network_literal [symmetric])
  from net have "error (page (onSubmit st (Some t) (FetchThrows nm) sr)) = msg_network"
    by simp
  with err msg_timeout_neq_network
  show "error (page (onSubmit st (Some t) (FetchThrows nm) sr))
                 \<noteq> error (page (onSubmit st latency fr sr))"
    by simp
next
  from assms(1) await_fetch_late [OF assms(2), of fr]
  show "onSubmit st latency fr sr =
           \<lparr>page = \<lparr>error = msg_timeout, loading = False\<rparr>,
            fetch_called = True, signIn_called = False, pushed = None\<rparr>"
    by (simp add: onSubmit_def catch_message_def Let_def)
  show "timeout_ms = 10000" by (simp add: timeout_ms_def)
  show "msg_timeout \<noteq> msg_network" by (rule msg_timeout_neq_network)
qed

theorem onSubmit_timeout_witness:
  "onSubmit \<lparr>error = ''Serverfeil'', loading = False\<rparr> (Some 10001)
     (FetchResponse 201 None) (SignInReturns None)
   = \<lparr>page = \<lparr>error = msg_timeout, loading = False\<rparr>,
      fetch_called = True, signIn_called = False, pushed = None\<rparr>
   \<and> error (page (onSubmit \<lparr>error = ''Serverfeil'', loading = False\<rparr> (Some 10001)
       (FetchResponse 201 None) (SignInReturns None))) \<noteq> []
   \<and> page (onSubmit \<lparr>error = ''Serverfeil'', loading = False\<rparr> (Some 300)
       (FetchThrows (Some ''TypeError'')) (SignInReturns None))
     = \<lparr>error = msg_network, loading = False\<rparr>"
proof -
  have l: "\<not> loading \<lparr>error = ''Serverfeil'', loading = False\<rparr>" by simp
  have h: "Some (10001::nat) = None \<or> (\<exists>t. Some (10001::nat) = Some t \<and> timeout_ms < t)"
    by (simp add: timeout_ms_def)
  have q: "(300::nat) < timeout_ms \<and> Some ''TypeError'' \<noteq> Some ''AbortError''"
    by (simp add: timeout_ms_def)
  note inst = onSubmit_timeout [OF l h, of "FetchResponse 201 None" "SignInReturns None"]
  note a = inst [THEN conjunct1]
  note b = inst [THEN conjunct2, THEN conjunct2, THEN conjunct1]
  note f = inst [THEN conjunct2, THEN conjunct2, THEN conjunct2, THEN conjunct2,
                 THEN conjunct2, rule_format, OF q, THEN conjunct1]
  from f have c: "page (onSubmit \<lparr>error = ''Serverfeil'', loading = False\<rparr> (Some 300)
       (FetchThrows (Some ''TypeError'')) (SignInReturns None))
     = \<lparr>error = msg_network, loading = False\<rparr>"
    by (simp only: msg_network_literal [symmetric])
  from a b c show ?thesis by (intro conjI)
qed

end
